theory Spec2Isabelle
  imports Complex_Main "HOL-Library.Char_ord" "HOL-Library.List_Lexorder"
    "HOL-Library.Multiset"
begin

section \<open>Python values, rows and errors\<close>

text \<open>
  The pipeline of \<^verbatim>\<open>src/data_processing.py\<close> works on lists of dicts. A raw row (one
  line of the CSV file, as \<^verbatim>\<open>csv.DictReader\<close> gives it) maps column names to strings;
  a cleaned row maps them to strings, \<^verbatim>\<open>None\<close>, ints or floats. A dict is kept as the
  list of its items in insertion order; a dict has every key once. The raw values are
  strings, as the annotation \<^verbatim>\<open>Dict[str, str]\<close> of \<^verbatim>\<open>clean_data\<close> says.

  A Python \<^verbatim>\<open>str\<close> is a sequence of code points. The model keeps the code points
  below 256, one \<^typ>\<open>char\<close> each, so that \<^verbatim>\<open>str.isdigit\<close>, \<^verbatim>\<open>str.strip\<close>,
  \<^verbatim>\<open>int\<close> and \<^verbatim>\<open>float\<close> are the library's functions on that range.

  Every \<^verbatim>\<open>raise\<close> is a value: a function that can raise returns \<open>error + 'a\<close>.
  The calls of \<^verbatim>\<open>logging.warning\<close> write to the log only and are left out.
\<close>

datatype error =
    KeyError string
  | ValueError
  | TypeError
  | AttributeError
  | IndexError
  | OverflowError

text \<open>A float is the rational number the binary64 value stands for, or one of the
  three special values.\<close>

datatype pyfloat = Finite rat | PosInf | NegInf | NaN

datatype pyval = VStr string | VNone | VInt int | VFloat pyfloat

type_synonym raw_row = "(string \<times> string) list"
type_synonym row = "(string \<times> pyval) list"

definition bind :: "error + 'a \<Rightarrow> ('a \<Rightarrow> error + 'b) \<Rightarrow> error + 'b" where
  "bind m f = (case m of Inl e \<Rightarrow> Inl e | Inr x \<Rightarrow> f x)"

text \<open>\<^verbatim>\<open>row[key]\<close>: the value, or \<^verbatim>\<open>KeyError\<close>.\<close>

definition getitem :: "(string \<times> 'v) list \<Rightarrow> string \<Rightarrow> error + 'v" where
  "getitem r key = (case map_of r key of None \<Rightarrow> Inl (KeyError key) | Some v \<Rightarrow> Inr v)"

text \<open>Truth value of an object, as \<^verbatim>\<open>not x\<close>, \<^verbatim>\<open>x if x else None\<close> and \<^verbatim>\<open>all\<close> test it.\<close>

fun truthy :: "pyval \<Rightarrow> bool" where
  "truthy (VStr s) = (s \<noteq> [])"
| "truthy VNone = False"
| "truthy (VInt i) = (i \<noteq> 0)"
| "truthy (VFloat f) = (f \<noteq> Finite 0)"

section \<open>Library functions on strings\<close>

text \<open>\<^verbatim>\<open>c.isdigit()\<close>: the decimal digits and the superscript digits
  U+00B2, U+00B3, U+00B9; \<^verbatim>\<open>c.isdecimal()\<close>: the decimal digits alone.\<close>

definition isdigit_char :: "char \<Rightarrow> bool" where
  "isdigit_char c =
     (let n = (of_char c :: nat) in (48 \<le> n \<and> n \<le> 57) \<or> n = 178 \<or> n = 179 \<or> n = 185)"

definition isdecimal_char :: "char \<Rightarrow> bool" where
  "isdecimal_char c = (let n = (of_char c :: nat) in 48 \<le> n \<and> n \<le> 57)"

text \<open>\<^verbatim>\<open>s.isdigit()\<close> is false on the empty string.\<close>

definition isdigit :: "string \<Rightarrow> bool" where
  "isdigit s = (s \<noteq> [] \<and> list_all isdigit_char s)"

text \<open>The characters \<^verbatim>\<open>str.strip()\<close> removes, and those \<^verbatim>\<open>int()\<close> skips at both
  ends of its argument.\<close>

definition isspace :: "char \<Rightarrow> bool" where
  "isspace c =
     (let n = (of_char c :: nat) in (9 \<le> n \<and> n \<le> 13) \<or> (28 \<le> n \<and> n \<le> 32) \<or> n = 133 \<or> n = 160)"

definition int_space :: "char \<Rightarrow> bool" where
  "int_space c =
     (let n = (of_char c :: nat) in (9 \<le> n \<and> n \<le> 13) \<or> n = 32 \<or> n = 133 \<or> n = 160)"

definition strip_with :: "(char \<Rightarrow> bool) \<Rightarrow> string \<Rightarrow> string" where
  "strip_with p s = rev (dropWhile p (rev (dropWhile p s)))"

definition strip :: "string \<Rightarrow> string" where
  "strip s = strip_with isspace s"

text \<open>\<^verbatim>\<open>s.split(sep)\<close> with a one-character separator.\<close>

fun split :: "char \<Rightarrow> string \<Rightarrow> string list" where
  "split sep [] = [[]]"
| "split sep (c # cs) =
     (if c = sep then [] # split sep cs
      else (case split sep cs of [] \<Rightarrow> [[c]] | p # ps \<Rightarrow> (c # p) # ps))"

definition digit_val :: "char \<Rightarrow> nat" where
  "digit_val c = of_char c - 48"

definition digits_value :: "string \<Rightarrow> nat" where
  "digits_value s = foldl (\<lambda>a c. 10 * a + digit_val c) 0 s"

subsection \<open>\<^verbatim>\<open>int(s)\<close>\<close>

text \<open>After the sign: decimal digits, with single underscores between digits. A
  literal of more than 4300 digits is refused (the default limit of the interpreter
  since Python 3.11).\<close>

fun int_body :: "string \<Rightarrow> bool" where
  "int_body [] = False"
| "int_body [c] = isdecimal_char c"
| "int_body (c # d # r) =
     (isdecimal_char c \<and> (if d = CHR ''_'' then int_body r else int_body (d # r)))"

definition max_str_digits :: nat where
  "max_str_digits = 4300"

definition int_of_body :: "string \<Rightarrow> error + int" where
  "int_of_body b =
     (let digits = filter (\<lambda>c. c \<noteq> CHR ''_'') b
      in if int_body b \<and> length digits \<le> max_str_digits then Inr (int (digits_value digits))
         else Inl ValueError)"

definition int_str :: "string \<Rightarrow> error + int" where
  "int_str s =
     (case strip_with int_space s of
        [] \<Rightarrow> Inl ValueError
      | c # r \<Rightarrow>
          if c = CHR ''-'' then bind (int_of_body r) (\<lambda>n. Inr (- n))
          else if c = CHR ''+'' then int_of_body r
          else int_of_body (c # r))"

subsection \<open>\<^verbatim>\<open>float(s)\<close>\<close>

text \<open>The binary64 value nearest to \<open>n / d\<close> (ties to the even mantissa): the
  mantissa has 53 bits, the least exponent is \<open>-1074\<close>, and a result of \<open>2 ^ 1024\<close> or
  more is infinity.\<close>

fun bit_length :: "nat \<Rightarrow> nat" where
  "bit_length n = (if n = 0 then 0 else Suc (bit_length (n div 2)))"

declare bit_length.simps [simp del]

definition floor_log2 :: "nat \<Rightarrow> nat \<Rightarrow> int" where
  "floor_log2 n d =
     (let t = int (bit_length n) - int (bit_length d)
      in if (if 0 \<le> t then d * 2 ^ nat t \<le> n else d \<le> n * 2 ^ nat (- t)) then t else t - 1)"

definition round_half_even :: "nat \<Rightarrow> nat \<Rightarrow> nat" where
  "round_half_even n d =
     (let q = n div d; r = n mod d
      in if 2 * r < d then q else if d < 2 * r then q + 1 else if even q then q else q + 1)"

definition nearest_double :: "nat \<Rightarrow> nat \<Rightarrow> pyfloat" where
  "nearest_double n d =
     (if n = 0 then Finite 0
      else
        let e = max (floor_log2 n d - 52) (- 1074);
            m = (if e < 0 then round_half_even (n * 2 ^ nat (- e)) d
                 else round_half_even n (d * 2 ^ nat e))
        in if 0 \<le> e \<and> 2 ^ 1024 \<le> m * 2 ^ nat e then PosInf
           else if e < 0 then Finite (of_nat m / 2 ^ nat (- e))
           else Finite (of_nat m * 2 ^ nat e))"

text \<open>\<^verbatim>\<open>float(s)\<close> on the strings \<^verbatim>\<open>clean_price\<close> passes to it, which hold digit
  characters and dots only: digits with at most one dot and a digit on one side of it.
  (A sign, an exponent, underscores, \<^verbatim>\<open>inf\<close> and \<^verbatim>\<open>nan\<close> need characters that never
  reach it.)\<close>

definition float_str :: "string \<Rightarrow> error + pyfloat" where
  "float_str s =
     (let ip = takeWhile (\<lambda>c. c \<noteq> CHR ''.'') s;
          rest = dropWhile (\<lambda>c. c \<noteq> CHR ''.'') s;
          fp = tl rest
      in if list_all isdecimal_char ip \<and> list_all isdecimal_char fp \<and> (ip \<noteq> [] \<or> fp \<noteq> [])
         then Inr (nearest_double (digits_value (ip @ fp)) (10 ^ length fp))
         else Inl ValueError)"

section \<open>Cleaning one value\<close>

definition clean_location :: "string \<Rightarrow> pyval" where
  "clean_location v = (if v = [] then VNone else VStr v)"

definition clean_price :: "string \<Rightarrow> error + pyfloat" where
  "clean_price v =
     (let cleaned_value = filter (\<lambda>c. isdigit_char c \<or> c = CHR ''.'') v
      in if cleaned_value \<noteq> [] then float_str cleaned_value else Inr (Finite 0))"

definition clean_date :: "string \<Rightarrow> string" where
  "clean_date v =
     (if CHR ''/'' \<in> set v then map (\<lambda>c. if c = CHR ''/'' then CHR ''-'' else c) v else v)"

definition clean_quantity :: "string \<Rightarrow> int" where
  "clean_quantity v =
     (case int_str v of
        Inr n \<Rightarrow> if 0 \<le> n then n else 0
      | Inl e \<Rightarrow> 0)"

definition clean_value :: "string \<Rightarrow> string \<Rightarrow> error + pyval" where
  "clean_value key v =
     (if key = ''Location'' then Inr (clean_location v)
      else if key = ''Price'' then bind (clean_price v) (\<lambda>f. Inr (VFloat f))
      else if key = ''Date'' then Inr (VStr (clean_date v))
      else if key = ''Quantity'' then Inr (VInt (clean_quantity v))
      else Inr (VStr v))"

section \<open>\<^verbatim>\<open>clean_data\<close>\<close>

text \<open>The inner loop over \<^verbatim>\<open>id_fields\<close>: the row is invalid at the first field that
  is missing, empty or not \<^verbatim>\<open>isdigit\<close>. The first argument is \<^verbatim>\<open>id_fields\<close> itself
  (the loop tests \<^verbatim>\<open>field in id_fields\<close>), the third the fields still to visit.\<close>

fun valid_row :: "string list \<Rightarrow> raw_row \<Rightarrow> string list \<Rightarrow> bool" where
  "valid_row id_fields r [] = True"
| "valid_row id_fields r (field # rest) =
     (case map_of r field of
        None \<Rightarrow> False
      | Some v \<Rightarrow>
          if v = [] then False
          else if field \<in> set id_fields \<and> \<not> isdigit v then False
          else valid_row id_fields r rest)"

text \<open>The two dict comprehensions of the second loop: every value stripped, then
  every value cleaned by its key, in the order of the items; the first value whose
  cleaning raises ends the run.\<close>

fun clean_items :: "raw_row \<Rightarrow> error + row" where
  "clean_items [] = Inr []"
| "clean_items ((key, v) # rest) =
     bind (clean_value key v) (\<lambda>v'. bind (clean_items rest) (\<lambda>r. Inr ((key, v') # r)))"

definition clean_row :: "raw_row \<Rightarrow> error + row" where
  "clean_row r = clean_items (map (\<lambda>(key, v). (key, strip v)) r)"

text \<open>\<^verbatim>\<open>tuple(sorted(row.items()))\<close>: the keys of a dict differ, so the order of the
  keys decides.\<close>

definition row_identifier :: "row \<Rightarrow> row" where
  "row_identifier r = sort_key fst r"

text \<open>The second loop, with its two accumulators \<^verbatim>\<open>seen\<close> and
  \<^verbatim>\<open>final_cleaned_data\<close>.\<close>

fun dedup_loop :: "raw_row list \<Rightarrow> row set \<Rightarrow> row list \<Rightarrow> error + row list" where
  "dedup_loop [] seen final_cleaned_data = Inr final_cleaned_data"
| "dedup_loop (r # rest) seen final_cleaned_data =
     bind (clean_row r) (\<lambda>c.
       if row_identifier c \<notin> seen
       then dedup_loop rest (insert (row_identifier c) seen) (final_cleaned_data @ [c])
       else dedup_loop rest seen final_cleaned_data)"

definition default_id_fields :: "string list" where
  "default_id_fields = [''ProductID'', ''SaleID'', ''RetailerID'']"

definition clean_data :: "raw_row list \<Rightarrow> string list \<Rightarrow> error + row list" where
  "clean_data data id_fields =
     (let cleaned_data = filter (\<lambda>r. valid_row id_fields r id_fields) data
      in dedup_loop cleaned_data {} [])"

section \<open>\<^verbatim>\<open>validate_data\<close>\<close>

fun validate_row :: "row \<Rightarrow> string list \<Rightarrow> bool" where
  "validate_row r [] = True"
| "validate_row r (field # rest) =
     (case map_of r field of
        None \<Rightarrow> False
      | Some v \<Rightarrow> if \<not> truthy v then False else validate_row r rest)"

fun validate_loop :: "row list \<Rightarrow> row list \<Rightarrow> row list" where
  "validate_loop [] validated_data = validated_data"
| "validate_loop (r # rest) validated_data =
     (if validate_row r [''ProductID'', ''SaleID'', ''RetailerID'']
      then validate_loop rest (validated_data @ [r])
      else validate_loop rest validated_data)"

definition validate_data :: "row list \<Rightarrow> row list" where
  "validate_data data = validate_loop data []"

section \<open>\<^verbatim>\<open>transform_data\<close>\<close>

text \<open>\<^verbatim>\<open>x == y\<close>, as the membership test \<^verbatim>\<open>x not in [...]\<close> uses it: a string never
  equals a number, an int equals the float of the same value.\<close>

fun py_eq :: "pyval \<Rightarrow> pyval \<Rightarrow> bool" where
  "py_eq (VStr a) (VStr b) = (a = b)"
| "py_eq VNone VNone = True"
| "py_eq (VInt a) (VInt b) = (a = b)"
| "py_eq (VFloat a) (VFloat b) = (a = b \<and> a \<noteq> NaN)"
| "py_eq (VInt a) (VFloat b) = (b = Finite (of_int a))"
| "py_eq (VFloat a) (VInt b) = (a = Finite (of_int b))"
| "py_eq _ _ = False"

definition py_in :: "pyval \<Rightarrow> pyval list \<Rightarrow> bool" where
  "py_in x ys = list_ex (py_eq x) ys"

text \<open>\<^verbatim>\<open>int(x)\<close> on a value.\<close>

fun py_int :: "pyval \<Rightarrow> error + int" where
  "py_int (VStr s) = int_str s"
| "py_int (VInt i) = Inr i"
| "py_int (VFloat (Finite q)) = Inr (if 0 \<le> q then \<lfloor>q\<rfloor> else \<lceil>q\<rceil>)"
| "py_int (VFloat PosInf) = Inl OverflowError"
| "py_int (VFloat NegInf) = Inl OverflowError"
| "py_int (VFloat NaN) = Inl ValueError"
| "py_int VNone = Inl TypeError"

text \<open>\<^verbatim>\<open>x if x else None\<close>.\<close>

definition or_none :: "pyval \<Rightarrow> pyval" where
  "or_none v = (if truthy v then v else VNone)"

text \<open>The four dicts the transformer builds, one record type for each dict literal.\<close>

record product_dim_record =
  ProductID :: int
  Name :: pyval
  Brand :: pyval
  Category :: pyval

record retailer_dim_record =
  RetailerID :: int
  Name :: pyval
  Channel :: pyval
  Location :: pyval

record date_dim_record =
  Date :: pyval
  Day :: int
  Month :: int
  Year :: int
  Quarter :: int
  DayOfWeek :: string
  WeekOfYear :: int

record sales_fact_record =
  SaleID :: int
  ProductID :: int
  RetailerID :: int
  Date :: pyval
  Quantity :: int
  Price :: pyval

subsection \<open>The calendar\<close>

text \<open>\<^verbatim>\<open>datetime.date\<close>: the proleptic Gregorian calendar, day 1 being 0001-01-01.\<close>

definition is_leap :: "int \<Rightarrow> bool" where
  "is_leap y = (y mod 4 = 0 \<and> (y mod 100 \<noteq> 0 \<or> y mod 400 = 0))"

definition days_in_month :: "int \<Rightarrow> int \<Rightarrow> int" where
  "days_in_month y m =
     (if m = 2 then (if is_leap y then 29 else 28)
      else if m = 4 \<or> m = 6 \<or> m = 9 \<or> m = 11 then 30 else 31)"

definition days_before_year :: "int \<Rightarrow> int" where
  "days_before_year y = (y - 1) * 365 + (y - 1) div 4 - (y - 1) div 100 + (y - 1) div 400"

definition days_before_month :: "int \<Rightarrow> int \<Rightarrow> int" where
  "days_before_month y m = sum_list (map (days_in_month y) [1 .. m - 1])"

definition ymd2ord :: "int \<Rightarrow> int \<Rightarrow> int \<Rightarrow> int" where
  "ymd2ord y m d = days_before_year y + days_before_month y m + d"

definition weekday :: "int \<Rightarrow> int \<Rightarrow> int \<Rightarrow> int" where
  "weekday y m d = (ymd2ord y m d + 6) mod 7"

text \<open>\<^verbatim>\<open>strftime('%A')\<close> in the C locale, which the program never changes.\<close>

definition weekday_name :: "int \<Rightarrow> string" where
  "weekday_name w =
     [''Monday'', ''Tuesday'', ''Wednesday'', ''Thursday'', ''Friday'', ''Saturday'', ''Sunday'']
       ! nat w"

definition isoweek1monday :: "int \<Rightarrow> int" where
  "isoweek1monday y =
     (let firstday = ymd2ord y 1 1;
          firstweekday = (firstday + 6) mod 7;
          week1monday = firstday - firstweekday
      in if firstweekday > 3 then week1monday + 7 else week1monday)"

text \<open>\<^verbatim>\<open>isocalendar()[1]\<close>.\<close>

definition iso_week :: "int \<Rightarrow> int \<Rightarrow> int \<Rightarrow> int" where
  "iso_week y m d =
     (let today = ymd2ord y m d;
          week = (today - isoweek1monday y) div 7
      in if week < 0 then (today - isoweek1monday (y - 1)) div 7 + 1
         else if week \<ge> 52 \<and> today \<ge> isoweek1monday (y + 1) then 1
         else week + 1)"

text \<open>\<^verbatim>\<open>datetime.strptime(s, '%Y-%m-%d')\<close>. The format is the regular expression
  \<^verbatim>\<open>(\d\d\d\d)-(1[0-2]|0[1-9]|[1-9])-(3[0-1]|[1-2]\d|0[1-9]|[1-9]| [1-9])\<close>, matched at
  the start of the string, and nothing may follow the match; then the day has to exist
  in the calendar, whose first year is 1.\<close>

definition nonzero_digit :: "char \<Rightarrow> bool" where
  "nonzero_digit c = (let n = (of_char c :: nat) in 49 \<le> n \<and> n \<le> 57)"

definition year_token :: "string \<Rightarrow> bool" where
  "year_token y = (length y = 4 \<and> list_all isdecimal_char y)"

fun month_token :: "string \<Rightarrow> bool" where
  "month_token [a] = nonzero_digit a"
| "month_token [a, b] =
     ((a = CHR ''1'' \<and> (b = CHR ''0'' \<or> b = CHR ''1'' \<or> b = CHR ''2''))
      \<or> (a = CHR ''0'' \<and> nonzero_digit b))"
| "month_token m = False"

fun day_token :: "string \<Rightarrow> bool" where
  "day_token [a] = nonzero_digit a"
| "day_token [a, b] =
     ((a = CHR ''3'' \<and> (b = CHR ''0'' \<or> b = CHR ''1''))
      \<or> ((a = CHR ''1'' \<or> a = CHR ''2'') \<and> isdecimal_char b)
      \<or> (a = CHR ''0'' \<and> nonzero_digit b)
      \<or> (a = CHR '' '' \<and> nonzero_digit b))"
| "day_token d = False"

definition strptime :: "string \<Rightarrow> error + (int \<times> int \<times> int)" where
  "strptime s =
     (case split CHR ''-'' s of
        [y, m, d] \<Rightarrow>
          if year_token y \<and> month_token m \<and> day_token d
          then
            let year = int (digits_value y);
                month = int (digits_value m);
                day = int (digits_value (filter (\<lambda>c. c \<noteq> CHR '' '') d))
            in if 1 \<le> year \<and> day \<le> days_in_month year month
               then Inr (year, month, day) else Inl ValueError
          else Inl ValueError
      | _ \<Rightarrow> Inl ValueError)"

text \<open>\<^verbatim>\<open>date_parts[i]\<close>.\<close>

definition index :: "'a list \<Rightarrow> nat \<Rightarrow> error + 'a" where
  "index xs i = (if i < length xs then Inr (xs ! i) else Inl IndexError)"

subsection \<open>One row\<close>

text \<open>The four blocks of the loop body. Each takes the row and its accumulator and
  returns the accumulator, extended or not. The values are read in the order in which
  Python evaluates them: the elements of the list given to \<^verbatim>\<open>all\<close> first, then the
  values of the dict literal from top to bottom.\<close>

definition product_step ::
  "row \<Rightarrow> product_dim_record list \<Rightarrow> error + product_dim_record list" where
  "product_step r product_dim =
     bind (getitem r ''ProductID'') (\<lambda>pid.
     bind (getitem r ''ProductName'') (\<lambda>pname.
       if \<not> py_in pid (map (\<lambda>p. VInt (product_dim_record.ProductID p)) product_dim)
          \<and> truthy pname
       then
         bind (py_int pid) (\<lambda>pid_int.
         bind (getitem r ''Brand'') (\<lambda>brand.
         bind (getitem r ''Category'') (\<lambda>category.
           Inr (product_dim @
             [\<lparr>product_dim_record.ProductID = pid_int,
               product_dim_record.Name = pname,
               Brand = or_none brand,
               Category = or_none category\<rparr>]))))
       else Inr product_dim))"

definition retailer_step ::
  "row \<Rightarrow> retailer_dim_record list \<Rightarrow> error + retailer_dim_record list" where
  "retailer_step r retailer_dim =
     bind (getitem r ''RetailerID'') (\<lambda>rid.
     bind (getitem r ''RetailerName'') (\<lambda>rname.
       if \<not> py_in rid (map (\<lambda>p. VInt (retailer_dim_record.RetailerID p)) retailer_dim)
          \<and> truthy rname
       then
         bind (py_int rid) (\<lambda>rid_int.
         bind (getitem r ''Channel'') (\<lambda>channel.
         bind (getitem r ''Location'') (\<lambda>location.
           Inr (retailer_dim @
             [\<lparr>retailer_dim_record.RetailerID = rid_int,
               retailer_dim_record.Name = rname,
               Channel = or_none channel,
               Location = or_none location\<rparr>]))))
       else Inr retailer_dim))"

text \<open>The calendar attributes of a date string: \<^verbatim>\<open>split\<close>, the three \<^verbatim>\<open>int\<close>,
  \<^verbatim>\<open>strptime\<close>, and the attributes read from the date object. \<^verbatim>\<open>date_parts[0]\<close>
  always exists.\<close>

definition date_attributes :: "string \<Rightarrow> error + date_dim_record" where
  "date_attributes s =
     (let date_parts = split CHR ''-'' s in
      bind (bind (index date_parts 0) int_str) (\<lambda>year.
      bind (bind (index date_parts 1) int_str) (\<lambda>month.
      bind (bind (index date_parts 2) int_str) (\<lambda>day.
      bind (strptime s) (\<lambda>(y, m, d).
        Inr \<lparr>date_dim_record.Date = VStr s,
             Day = day,
             Month = month,
             Year = year,
             Quarter = (month - 1) div 3 + 1,
             DayOfWeek = weekday_name (weekday y m d),
             WeekOfYear = iso_week y m d\<rparr>)))))"

text \<open>\<^verbatim>\<open>all([year, month, day, quarter, day_of_week, week_of_year])\<close>.\<close>

definition all_fields :: "date_dim_record \<Rightarrow> bool" where
  "all_fields d =
     (Year d \<noteq> 0 \<and> Month d \<noteq> 0 \<and> Day d \<noteq> 0 \<and> Quarter d \<noteq> 0
      \<and> DayOfWeek d \<noteq> [] \<and> WeekOfYear d \<noteq> 0)"

text \<open>A value that is no string has no \<^verbatim>\<open>split\<close>.\<close>

definition date_step :: "row \<Rightarrow> date_dim_record list \<Rightarrow> error + date_dim_record list" where
  "date_step r date_dim =
     bind (getitem r ''Date'') (\<lambda>date.
       if \<not> py_in date (map date_dim_record.Date date_dim)
       then
         (case date of
            VStr s \<Rightarrow>
              bind (date_attributes s) (\<lambda>d.
                if all_fields d then Inr (date_dim @ [d]) else Inr date_dim)
          | _ \<Rightarrow> Inl AttributeError)
       else Inr date_dim)"

definition sales_step ::
  "row \<Rightarrow> sales_fact_record list \<Rightarrow> error + sales_fact_record list" where
  "sales_step r sales_fact =
     bind (getitem r ''SaleID'') (\<lambda>sid.
       if \<not> py_in sid (map (\<lambda>f. VInt (SaleID f)) sales_fact)
       then
         bind (py_int sid) (\<lambda>sid_int.
         bind (bind (getitem r ''ProductID'') py_int) (\<lambda>pid_int.
         bind (bind (getitem r ''RetailerID'') py_int) (\<lambda>rid_int.
         bind (getitem r ''Date'') (\<lambda>date.
         bind (bind (getitem r ''Quantity'') py_int) (\<lambda>quantity.
         bind (getitem r ''Price'') (\<lambda>price.
           Inr (sales_fact @
             [\<lparr>SaleID = sid_int,
               sales_fact_record.ProductID = pid_int,
               sales_fact_record.RetailerID = rid_int,
               sales_fact_record.Date = date,
               Quantity = quantity,
               Price = price\<rparr>])))))))
       else Inr sales_fact)"

type_synonym tables =
  "product_dim_record list \<times> retailer_dim_record list \<times> date_dim_record list
     \<times> sales_fact_record list"

definition transform_row :: "row \<Rightarrow> tables \<Rightarrow> error + tables" where
  "transform_row r t =
     (case t of (product_dim, retailer_dim, date_dim, sales_fact) \<Rightarrow>
        bind (product_step r product_dim) (\<lambda>product_dim'.
        bind (retailer_step r retailer_dim) (\<lambda>retailer_dim'.
        bind (date_step r date_dim) (\<lambda>date_dim'.
        bind (sales_step r sales_fact) (\<lambda>sales_fact'.
          Inr (product_dim', retailer_dim', date_dim', sales_fact'))))))"

fun transform_loop :: "row list \<Rightarrow> tables \<Rightarrow> error + tables" where
  "transform_loop [] t = Inr t"
| "transform_loop (r # rest) t = bind (transform_row r t) (transform_loop rest)"

definition transform_data :: "row list \<Rightarrow> error + tables" where
  "transform_data cleaned_data = transform_loop cleaned_data ([], [], [], [])"

section \<open>The properties' vocabulary\<close>



text \<open>The rows of a list that are the first with their canonical identity, in the
  order of the list.\<close>

definition first_by_identity :: "row list \<Rightarrow> row list" where
  "first_by_identity cs =
     map (\<lambda>i. cs ! i)
       (filter (\<lambda>i. row_identifier (cs ! i) \<notin> row_identifier ` set (take i cs))
          [0 ..< length cs])"

text \<open>The same, given the identities seen before the list starts.\<close>

definition first_unseen :: "row set \<Rightarrow> row list \<Rightarrow> row list" where
  "first_unseen seen cs =
     map (\<lambda>i. cs ! i)
       (filter (\<lambda>i. row_identifier (cs ! i) \<notin> seen \<union> row_identifier ` set (take i cs))
          [0 ..< length cs])"

text \<open>A \<^verbatim>\<open>Date\<close> value conforms to \<^verbatim>\<open>YYYY-MM-DD\<close> when it is a string that
  \<^verbatim>\<open>strptime\<close> accepts with the format \<^verbatim>\<open>%Y-%m-%d\<close>.\<close>

definition conforms_date :: "pyval \<Rightarrow> bool" where
  "conforms_date v =
     (case v of
        VStr s \<Rightarrow> (case strptime s of Inr ymd \<Rightarrow> True | Inl e \<Rightarrow> False)
      | _ \<Rightarrow> False)"

text \<open>The row has every column \<^verbatim>\<open>transform_data\<close> reads, and \<^verbatim>\<open>int\<close> accepts the
  value of column \<open>k\<close>.\<close>

definition has_columns :: "row \<Rightarrow> bool" where
  "has_columns r =
     list_all (\<lambda>k. map_of r k \<noteq> None)
       [''ProductID'', ''ProductName'', ''Brand'', ''Category'',
        ''RetailerID'', ''RetailerName'', ''Channel'', ''Location'',
        ''Date'', ''SaleID'', ''Quantity'', ''Price'']"

definition int_valued :: "row \<Rightarrow> string \<Rightarrow> bool" where
  "int_valued r k =
     (case map_of r k of
        Some v \<Rightarrow> (case py_int v of Inr n \<Rightarrow> True | Inl e \<Rightarrow> False)
      | None \<Rightarrow> False)"

text \<open>Every date of the date dimension conforms.\<close>

definition dates_conform :: "date_dim_record list \<Rightarrow> bool" where
  "dates_conform date_dim = list_all (\<lambda>d. conforms_date (date_dim_record.Date d)) date_dim"

text \<open>A row on which no step of the transformer can raise.\<close>

definition transformable :: "row \<Rightarrow> bool" where
  "transformable r =
     (has_columns r \<and> int_valued r ''ProductID'' \<and> int_valued r ''RetailerID''
      \<and> int_valued r ''SaleID'' \<and> int_valued r ''Quantity''
      \<and> (case map_of r ''Date'' of Some v \<Rightarrow> conforms_date v | None \<Rightarrow> False))"

section \<open>Properties\<close>

subsection \<open>Helper lemmas\<close>

lemma bind_Inr [simp]: "bind (Inr x) f = f x"
  by (simp add: bind_def)

lemma bind_Inl [simp]: "bind (Inl e) f = Inl e"
  by (simp add: bind_def)

lemma bind_eq_Inr: "bind m f = Inr y \<longleftrightarrow> (\<exists>x. m = Inr x \<and> f x = Inr y)"
  by (cases m) simp_all

lemma validate_row_iff:
  "validate_row r fs = (\<forall>f \<in> set fs. \<exists>v. map_of r f = Some v \<and> truthy v)"
  by (induction fs) (auto split: option.splits)

lemma validate_loop_filter:
  "validate_loop data acc =
     acc @ filter (\<lambda>r. validate_row r [''ProductID'', ''SaleID'', ''RetailerID'']) data"
  by (induction data arbitrary: acc) simp_all

subsection \<open>The validator\<close>

text \<open>
  Claim C7. \<^verbatim>\<open>validate_data\<close> returns, in their order and unchanged, exactly the
  records in which each of \<^verbatim>\<open>ProductID\<close>, \<^verbatim>\<open>SaleID\<close> and \<^verbatim>\<open>RetailerID\<close> is present
  and non-empty. Non-empty is the test \<^verbatim>\<open>not row[field]\<close> of the source: for a
  string, which is what the cleaner leaves in these fields, that it is not \<^verbatim>\<open>''\<close>.
\<close>

theorem validate_data_subsequence:
  "validate_data data =
     filter (\<lambda>r. \<forall>f \<in> {''ProductID'', ''SaleID'', ''RetailerID''}.
                  \<exists>v. map_of r f = Some v \<and> truthy v) data"
  unfolding validate_data_def validate_loop_filter validate_row_iff by simp

theorem validate_data_subsequence_witness:
  "validate_data
     [[(''ProductID'', VStr ''1''), (''SaleID'', VStr ''2''), (''RetailerID'', VStr ''3''),
       (''Price'', VFloat (Finite 5))],
      [(''ProductID'', VStr ''1''), (''SaleID'', VStr ''''), (''RetailerID'', VStr ''3'')],
      [(''ProductID'', VStr ''1''), (''RetailerID'', VStr ''3'')],
      [(''RetailerID'', VStr ''4''), (''SaleID'', VStr ''9''), (''ProductID'', VStr ''0'')]]
   = [[(''ProductID'', VStr ''1''), (''SaleID'', VStr ''2''), (''RetailerID'', VStr ''3''),
       (''Price'', VFloat (Finite 5))],
      [(''RetailerID'', VStr ''4''), (''SaleID'', VStr ''9''), (''ProductID'', VStr ''0'')]]"
  by (simp add: validate_data_subsequence)

subsection \<open>Helper lemmas on the cleaner\<close>

lemma valid_row_iff:
  "valid_row ids r fs =
     (\<forall>f \<in> set fs. \<exists>v. map_of r f = Some v \<and> v \<noteq> [] \<and> (f \<in> set ids \<longrightarrow> isdigit v))"
  by (induction fs) (auto split: option.splits)

lemma digit_not_space: "isdigit_char c \<Longrightarrow> \<not> isspace c"
  by (auto simp: isdigit_char_def isspace_def Let_def)

lemma strip_with_id: "s \<noteq> [] \<Longrightarrow> \<not> p (hd s) \<Longrightarrow> \<not> p (last s) \<Longrightarrow> strip_with p s = s"
proof -
  assume a: "s \<noteq> []" "\<not> p (hd s)" "\<not> p (last s)"
  have 1: "dropWhile p s = s" using a by (simp add: dropWhile_eq_self_iff)
  have 2: "dropWhile p (rev s) = rev s" using a by (simp add: dropWhile_eq_self_iff hd_rev)
  show ?thesis by (simp add: strip_with_def 1 2)
qed

lemma strip_isdigit: "isdigit s \<Longrightarrow> strip s = s"
  unfolding strip_def isdigit_def
  by (rule strip_with_id) (auto simp: list_all_iff digit_not_space)

lemma clean_items_map_of:
  "clean_items its = Inr c \<Longrightarrow> map_of its f = Some v \<Longrightarrow>
     \<exists>v'. clean_value f v = Inr v' \<and> map_of c f = Some v'"
  by (induction its arbitrary: c) (auto simp: bind_eq_Inr split: if_splits)


lemma map_of_strip:
  "map_of (map (\<lambda>(key, v). (key, strip v)) r) f = map_option strip (map_of r f)"
  by (induction r) auto

lemma clean_row_map_of:
  "clean_row r = Inr c \<Longrightarrow> map_of r f = Some v \<Longrightarrow>
     \<exists>v'. clean_value f (strip v) = Inr v' \<and> map_of c f = Some v'"
  unfolding clean_row_def by (erule clean_items_map_of) (simp add: map_of_strip)


lemma dedup_loop_set:
  "dedup_loop rows seen acc = Inr out \<Longrightarrow> c \<in> set out \<Longrightarrow>
     c \<in> set acc \<or> (\<exists>r \<in> set rows. clean_row r = Inr c)"
proof (induction rows arbitrary: seen acc)
  case Nil
  then show ?case by simp
next
  case (Cons r rows)
  from Cons.prems(1) obtain c0 where c0: "clean_row r = Inr c0"
    and rest: "(if row_identifier c0 \<notin> seen
       then dedup_loop rows (insert (row_identifier c0) seen) (acc @ [c0])
       else dedup_loop rows seen acc) = Inr out"
    by (auto simp: bind_eq_Inr)
  show ?case
  proof (cases "row_identifier c0 \<notin> seen")
    case True
    with rest have "dedup_loop rows (insert (row_identifier c0) seen) (acc @ [c0]) = Inr out"
      by simp
    from Cons.IH [OF this Cons.prems(2)] c0 show ?thesis by auto
  next
    case False
    with rest have "dedup_loop rows seen acc = Inr out" by simp
    from Cons.IH [OF this Cons.prems(2)] show ?thesis by auto
  qed
qed

lemma clean_data_origin:
  assumes "clean_data data ids = Inr out" "c \<in> set out"
  shows "\<exists>r \<in> set data. valid_row ids r ids \<and> clean_row r = Inr c"
  using dedup_loop_set [OF assms [unfolded clean_data_def Let_def]] by auto

lemma clean_value_plain:
  "f \<notin> {''Location'', ''Price'', ''Date'', ''Quantity''} \<Longrightarrow> clean_value f v = Inr (VStr v)"
  by (simp add: clean_value_def)

lemma cleaned_id_field:
  assumes "clean_data data ids = Inr out" "c \<in> set out" "f \<in> set ids"
    and "f \<notin> {''Location'', ''Price'', ''Date'', ''Quantity''}"
  shows "\<exists>s. map_of c f = Some (VStr s) \<and> isdigit s"
proof -
  from clean_data_origin [OF assms(1,2)] obtain r
    where r: "valid_row ids r ids" "clean_row r = Inr c" by blast
  from r(1) assms(3) obtain v where v: "map_of r f = Some v" "isdigit v"
    unfolding valid_row_iff by blast
  from clean_row_map_of [OF r(2) v(1)] obtain v'
    where "clean_value f (strip v) = Inr v'" "map_of c f = Some v'" by blast
  with v(2) assms(4) show ?thesis
    by (auto simp: strip_isdigit clean_value_plain)
qed






lemma first_unseen_Nil [simp]: "first_unseen seen [] = []"
  by (simp add: first_unseen_def)

lemma first_unseen_Cons:
  "first_unseen seen (c # cs) =
     (if row_identifier c \<in> seen then first_unseen seen cs
      else c # first_unseen (insert (row_identifier c) seen) cs)"
proof -
  have upt: "[0 ..< length (c # cs)] = 0 # map Suc [0 ..< length cs]"
    by (simp add: upt_conv_Cons map_Suc_upt del: upt_Suc)
  have shift: "(\<lambda>i. row_identifier ((c # cs) ! Suc i)
                  \<notin> seen \<union> row_identifier ` set (take (Suc i) (c # cs)))
             = (\<lambda>i. row_identifier (cs ! i)
                  \<notin> insert (row_identifier c) seen \<union> row_identifier ` set (take i cs))"
    by auto
  have tail: "map (\<lambda>i. (c # cs) ! i)
                (filter (\<lambda>i. row_identifier ((c # cs) ! i)
                    \<notin> seen \<union> row_identifier ` set (take i (c # cs)))
                  (map Suc [0 ..< length cs]))
              = first_unseen (insert (row_identifier c) seen) cs"
    unfolding first_unseen_def filter_map o_def shift by simp
  show ?thesis
  proof (cases "row_identifier c \<in> seen")
    case True
    then have "insert (row_identifier c) seen = seen" by auto
    with True tail show ?thesis
      unfolding first_unseen_def [of seen "c # cs"] upt by simp
  next
    case False
    with tail show ?thesis
      unfolding first_unseen_def [of seen "c # cs"] upt by simp
  qed
qed

lemma first_by_identity_unseen: "first_by_identity cs = first_unseen {} cs"
  by (simp add: first_by_identity_def first_unseen_def)

lemma dedup_loop_first_unseen:
  "list_all2 (\<lambda>r c. clean_row r = Inr c) rows cs \<Longrightarrow>
     dedup_loop rows seen acc = Inr (acc @ first_unseen seen cs)"
proof (induction rows arbitrary: cs seen acc)
  case Nil
  then show ?case by simp
next
  case (Cons r rows)
  then obtain c cs' where cs: "cs = c # cs'" "clean_row r = Inr c"
    "list_all2 (\<lambda>r c. clean_row r = Inr c) rows cs'"
    by (auto simp: list_all2_Cons1)
  show ?case
    by (simp add: cs Cons.IH [OF cs(3)] first_unseen_Cons)
qed

lemma dedup_loop_cleaned:
  "dedup_loop rows seen acc = Inr out \<Longrightarrow>
     \<exists>cs. list_all2 (\<lambda>r c. clean_row r = Inr c) rows cs"
proof (induction rows arbitrary: seen acc)
  case Nil
  then show ?case by simp
next
  case (Cons r rows)
  from Cons.prems obtain c where c: "clean_row r = Inr c"
    and "\<exists>seen' acc'. dedup_loop rows seen' acc' = Inr out"
    by (auto simp: bind_eq_Inr split: if_splits)
  then obtain cs where "list_all2 (\<lambda>r c. clean_row r = Inr c) rows cs"
    using Cons.IH by blast
  with c have "list_all2 (\<lambda>r c. clean_row r = Inr c) (r # rows) (c # cs)" by simp
  then show ?case by blast
qed

lemma first_unseen_image:
  "row_identifier ` set (first_unseen seen cs) = row_identifier ` set cs - seen"
  by (induction cs arbitrary: seen) (auto simp: first_unseen_Cons)

lemma first_unseen_distinct: "distinct (map row_identifier (first_unseen seen cs))"
proof (induction cs arbitrary: seen)
  case Nil
  show ?case by simp
next
  case (Cons c cs)
  have "row_identifier c \<notin> row_identifier ` set (first_unseen (insert (row_identifier c) seen) cs)"
    unfolding first_unseen_image by simp
  with Cons show ?case by (simp add: first_unseen_Cons)
qed

lemma distinct_map_once:
  "distinct (map f xs) \<Longrightarrow> x \<in> set xs \<Longrightarrow> length (filter (\<lambda>y. f y = f x) xs) = 1"
proof (induction xs)
  case Nil
  then show ?case by simp
next
  case (Cons a xs)
  show ?case
  proof (cases "f a = f x")
    case True
    from Cons.prems(1) have "f a \<notin> f ` set xs" by simp
    with True have "\<forall>y \<in> set xs. f y \<noteq> f x" by (metis imageI)
    then have "filter (\<lambda>y. f y = f x) xs = []"
      by (simp add: filter_empty_conv)
    with True show ?thesis by simp
  next
    case False
    with Cons show ?thesis by auto
  qed
qed

lemma row_identifier_sorted:
  "sorted (map fst (row_identifier c)) \<and> mset (row_identifier c) = mset c"
  by (simp add: row_identifier_def)

lemma filter_key_single:
  "distinct (map fst xs) \<Longrightarrow> k \<in> set xs \<Longrightarrow> filter (\<lambda>x. fst k = fst x) xs = [k]"
proof (induction xs)
  case Nil
  then show ?case by simp
next
  case (Cons x xs)
  show ?case
  proof (cases "k = x")
    case True
    from Cons.prems(1) have "fst x \<notin> fst ` set xs" by simp
    then have "\<forall>y \<in> set xs. fst x \<noteq> fst y" by (metis imageI)
    then have "filter (\<lambda>y. fst x = fst y) xs = []" by (simp add: filter_empty_conv)
    with True show ?thesis by simp
  next
    case False
    with Cons.prems have k: "k \<in> set xs" by simp
    moreover from Cons.prems(1) have "fst x \<notin> fst ` set xs" by simp
    ultimately have "fst k \<noteq> fst x" by (metis imageI)
    with Cons k show ?thesis by simp
  qed
qed

lemma row_identifier_eq_iff:
  assumes "distinct (map fst a)" "distinct (map fst b)"
  shows "row_identifier a = row_identifier b \<longleftrightarrow> set a = set b"
proof
  assume "row_identifier a = row_identifier b"
  then have "set (row_identifier a) = set (row_identifier b)" by simp
  then show "set a = set b" by (simp add: row_identifier_def)
next
  assume eq: "set a = set b"
  from assms have da: "distinct a" and db: "distinct b"
    by (simp_all add: distinct_map)
  with eq have m: "mset (sort_key fst b) = mset a"
    by (simp add: set_eq_iff_mset_eq_distinct)
  have "sort_key fst a = sort_key fst b"
  proof (rule properties_for_sort_key [OF m])
    fix k assume "k \<in> set (sort_key fst b)"
    then have kb: "k \<in> set b" by simp
    with eq have ka: "k \<in> set a" by simp
    have "filter (\<lambda>x. fst k = fst x) (sort_key fst b) = filter (\<lambda>x. fst k = fst x) b"
      using sort_key_stable [of fst "fst k" b] by (simp add: eq_commute)
    with filter_key_single [OF assms(2) kb] filter_key_single [OF assms(1) ka]
    show "filter (\<lambda>x. fst k = fst x) (sort_key fst b) = filter (\<lambda>x. fst k = fst x) a"
      by simp
  next
    show "sorted (map fst (sort_key fst b))" by simp
  qed
  then show "row_identifier a = row_identifier b" by (simp add: row_identifier_def)
qed





text \<open>Unfolding the cleaner on a concrete input.\<close>

named_theorems eval_defs

lemmas [eval_defs] =
  clean_data_def default_id_fields_def clean_row_def row_identifier_def clean_value_def
  clean_location_def clean_price_def clean_date_def clean_quantity_def float_str_def
  nearest_double_def floor_log2_def bit_length.simps round_half_even_def digits_value_def
  digit_val_def isdigit_def isdigit_char_def isdecimal_char_def isspace_def int_space_def
  strip_def strip_with_def int_str_def int_of_body_def max_str_digits_def Let_def

subsection \<open>The cleaner\<close>

text \<open>
  Claim C3, at the input \<^verbatim>\<open>"1.2.3"\<close>. Price cleaning keeps the digits and the dots;
  the remainder \<^verbatim>\<open>1.2.3\<close> is not empty and no float, and \<^verbatim>\<open>float\<close> raises
  \<^verbatim>\<open>ValueError\<close>, which nothing catches: the run of \<^verbatim>\<open>clean_data\<close> ends with it.
  The three examples of the claim come out as it says.
\<close>

theorem clean_price_unparseable_raises:
  "clean_price ''1.2.3'' = Inl ValueError
   \<and> clean_data
        [[(''ProductID'', ''1''), (''SaleID'', ''2''), (''RetailerID'', ''3''),
          (''Price'', ''1.2.3'')]] default_id_fields = Inl ValueError
   \<and> clean_price ''$1,234.56'' = Inr (nearest_double 123456 100)
   \<and> clean_price [] = Inr (Finite 0)
   \<and> clean_price ''abc'' = Inr (Finite 0)"
  by (simp add: clean_data_def default_id_fields_def clean_row_def clean_value_def
      clean_price_def float_str_def digits_value_def digit_val_def isdigit_def
      isdigit_char_def isdecimal_char_def isspace_def strip_def strip_with_def)

text \<open>
  Claim C4, at a row whose \<^verbatim>\<open>ProductID\<close> is the superscript two (U+00B2). The
  structural filter tests \<^verbatim>\<open>str.isdigit\<close>, which holds of it; the row is retained,
  though its \<^verbatim>\<open>ProductID\<close> is no decimal digit and \<^verbatim>\<open>int\<close> rejects it.
\<close>

theorem superscript_identifier_retained:
  "clean_data
     [[(''ProductID'', [CHR 0xB2]), (''SaleID'', ''2''), (''RetailerID'', ''3'')]]
     default_id_fields
   = Inr [[(''ProductID'', VStr [CHR 0xB2]), (''SaleID'', VStr ''2''),
           (''RetailerID'', VStr ''3'')]]
   \<and> \<not> list_all isdecimal_char [CHR 0xB2]
   \<and> int_str [CHR 0xB2] = Inl ValueError"
  by (simp add: eval_defs)




text \<open>
  Claim C6. When \<^verbatim>\<open>clean_data\<close> returns, the rows that passed the structural filter
  were all cleaned, and the result holds exactly the cleaned rows that are the first
  with their canonical identity, in the order in which they came; no two records of
  the result share an identity, and every identity among the cleaned rows has exactly
  one record in the result. The canonical identity of a record is its field-value
  pairs sorted by field: a rearrangement of the record's items in ascending order of
  the keys, so that two records (each key once) have the same identity exactly when
  they have the same field-value pairs, in whatever order of columns.
\<close>

theorem clean_data_first_by_identity:
  assumes "clean_data data id_fields = Inr out"
  shows "\<exists>cs. list_all2 (\<lambda>r c. clean_row r = Inr c)
                (filter (\<lambda>r. valid_row id_fields r id_fields) data) cs
            \<and> out = first_by_identity cs
            \<and> distinct (map row_identifier out)
            \<and> (\<forall>c \<in> set cs.
                 length (filter (\<lambda>x. row_identifier x = row_identifier c) out) = 1)
            \<and> (\<forall>c \<in> set cs.
                 sorted (map fst (row_identifier c)) \<and> mset (row_identifier c) = mset c)
            \<and> (\<forall>a \<in> set cs. \<forall>b \<in> set cs.
                 distinct (map fst a) \<longrightarrow> distinct (map fst b) \<longrightarrow>
                 (row_identifier a = row_identifier b \<longleftrightarrow> set a = set b))"
proof -
  let ?rows = "filter (\<lambda>r. valid_row id_fields r id_fields) data"
  from assms have run: "dedup_loop ?rows {} [] = Inr out"
    by (simp add: clean_data_def)
  from dedup_loop_cleaned [OF run] obtain cs
    where cs: "list_all2 (\<lambda>r c. clean_row r = Inr c) ?rows cs" by blast
  from dedup_loop_first_unseen [OF cs, of "{}" "[]"] run
  have out: "out = first_by_identity cs"
    by (simp add: first_by_identity_unseen)
  have d: "distinct (map row_identifier out)"
    unfolding out first_by_identity_unseen by (rule first_unseen_distinct)
  have once: "length (filter (\<lambda>x. row_identifier x = row_identifier c) out) = 1"
    if "c \<in> set cs" for c
  proof -
    from that have "row_identifier c \<in> row_identifier ` set out"
      unfolding out first_by_identity_unseen first_unseen_image by simp
    then obtain x where x: "x \<in> set out" "row_identifier x = row_identifier c" by auto
    from distinct_map_once [OF d x(1)] x(2) show ?thesis by simp
  qed
  have canonical: "\<forall>c \<in> set cs.
      sorted (map fst (row_identifier c)) \<and> mset (row_identifier c) = mset c"
    using row_identifier_sorted by blast
  have same: "\<forall>a \<in> set cs. \<forall>b \<in> set cs.
      distinct (map fst a) \<longrightarrow> distinct (map fst b) \<longrightarrow>
      (row_identifier a = row_identifier b \<longleftrightarrow> set a = set b)"
    using row_identifier_eq_iff by blast
  from cs out d once canonical same show ?thesis by blast
qed

theorem clean_data_first_by_identity_witness:
  "clean_data
     [[(''ProductID'', ''1''), (''SaleID'', ''2''), (''RetailerID'', ''3''), (''ProductName'', ''Pen '')],
      [(''ProductID'', ''1''), (''SaleID'', ''4''), (''RetailerID'', ''3''), (''ProductName'', ''Pen'')],
      [(''SaleID'', ''2''), (''ProductName'', '' Pen''), (''RetailerID'', ''3''), (''ProductID'', ''1'')]]
     default_id_fields
   = Inr
     [[(''ProductID'', VStr ''1''), (''SaleID'', VStr ''2''), (''RetailerID'', VStr ''3''),
       (''ProductName'', VStr ''Pen'')],
      [(''ProductID'', VStr ''1''), (''SaleID'', VStr ''4''), (''RetailerID'', VStr ''3''),
       (''ProductName'', VStr ''Pen'')]]
   \<and> row_identifier
        [(''SaleID'', VStr ''2''), (''ProductName'', VStr ''Pen''), (''RetailerID'', VStr ''3''),
         (''ProductID'', VStr ''1'')]
     = [(''ProductID'', VStr ''1''), (''ProductName'', VStr ''Pen''), (''RetailerID'', VStr ''3''),
        (''SaleID'', VStr ''2'')]
   \<and> row_identifier
        [(''ProductID'', VStr ''1''), (''SaleID'', VStr ''2''), (''RetailerID'', VStr ''3''),
         (''ProductName'', VStr ''Pen'')]
     = [(''ProductID'', VStr ''1''), (''ProductName'', VStr ''Pen''), (''RetailerID'', VStr ''3''),
        (''SaleID'', VStr ''2'')]
   \<and> distinct (map row_identifier
      [[(''ProductID'', VStr ''1''), (''SaleID'', VStr ''2''), (''RetailerID'', VStr ''3''),
        (''ProductName'', VStr ''Pen'')],
       [(''ProductID'', VStr ''1''), (''SaleID'', VStr ''4''), (''RetailerID'', VStr ''3''),
        (''ProductName'', VStr ''Pen'')]])"
proof -
  have run: "clean_data
     [[(''ProductID'', ''1''), (''SaleID'', ''2''), (''RetailerID'', ''3''), (''ProductName'', ''Pen '')],
      [(''ProductID'', ''1''), (''SaleID'', ''4''), (''RetailerID'', ''3''), (''ProductName'', ''Pen'')],
      [(''SaleID'', ''2''), (''ProductName'', '' Pen''), (''RetailerID'', ''3''), (''ProductID'', ''1'')]]
     default_id_fields
   = Inr
     [[(''ProductID'', VStr ''1''), (''SaleID'', VStr ''2''), (''RetailerID'', VStr ''3''),
       (''ProductName'', VStr ''Pen'')],
      [(''ProductID'', VStr ''1''), (''SaleID'', VStr ''4''), (''RetailerID'', VStr ''3''),
       (''ProductName'', VStr ''Pen'')]]"
    by (simp add: eval_defs)
  have ids: "row_identifier
        [(''SaleID'', VStr ''2''), (''ProductName'', VStr ''Pen''), (''RetailerID'', VStr ''3''),
         (''ProductID'', VStr ''1'')]
     = [(''ProductID'', VStr ''1''), (''ProductName'', VStr ''Pen''), (''RetailerID'', VStr ''3''),
        (''SaleID'', VStr ''2'')]"
    "row_identifier
        [(''ProductID'', VStr ''1''), (''SaleID'', VStr ''2''), (''RetailerID'', VStr ''3''),
         (''ProductName'', VStr ''Pen'')]
     = [(''ProductID'', VStr ''1''), (''ProductName'', VStr ''Pen''), (''RetailerID'', VStr ''3''),
        (''SaleID'', VStr ''2'')]"
    by (simp_all add: row_identifier_def)
  from clean_data_first_by_identity [OF run]
  have "distinct (map row_identifier
      [[(''ProductID'', VStr ''1''), (''SaleID'', VStr ''2''), (''RetailerID'', VStr ''3''),
        (''ProductName'', VStr ''Pen'')],
       [(''ProductID'', VStr ''1''), (''SaleID'', VStr ''4''), (''RetailerID'', VStr ''3''),
        (''ProductName'', VStr ''Pen'')]])"
    by blast
  with run ids show ?thesis by blast
qed

subsection \<open>The validator after the cleaner\<close>

text \<open>
  Claim C10. Whatever \<^verbatim>\<open>clean_data\<close> returns with its default identifier fields,
  \<^verbatim>\<open>validate_data\<close> returns unchanged: it drops no record that the cleaner kept.
\<close>

theorem validate_after_clean:
  assumes "clean_data data default_id_fields = Inr out"
  shows "validate_data out = out"
proof -
  have "validate_row c [''ProductID'', ''SaleID'', ''RetailerID'']" if c: "c \<in> set out" for c
  proof -
    have "\<exists>v. map_of c f = Some v \<and> truthy v" if f: "f \<in> set default_id_fields" for f
    proof -
      from f have "f \<notin> {''Location'', ''Price'', ''Date'', ''Quantity''}"
        by (auto simp: default_id_fields_def)
      from cleaned_id_field [OF assms c f this]
      obtain s where "map_of c f = Some (VStr s)" "isdigit s" by blast
      then show ?thesis by (simp add: isdigit_def)
    qed
    then have "validate_row c default_id_fields"
      unfolding validate_row_iff by blast
    then show ?thesis by (simp add: default_id_fields_def)
  qed
  then show ?thesis
    by (simp add: validate_data_def validate_loop_filter)
qed

theorem validate_after_clean_witness:
  "clean_data
     [[(''SaleID'', ''10''), (''ProductID'', ''7''), (''RetailerID'', ''3'')],
      [(''SaleID'', []), (''ProductID'', ''7''), (''RetailerID'', ''3'')]] default_id_fields
   = Inr [[(''SaleID'', VStr ''10''), (''ProductID'', VStr ''7''), (''RetailerID'', VStr ''3'')]]
   \<and> validate_data
        [[(''SaleID'', VStr ''10''), (''ProductID'', VStr ''7''), (''RetailerID'', VStr ''3'')]]
     = [[(''SaleID'', VStr ''10''), (''ProductID'', VStr ''7''), (''RetailerID'', VStr ''3'')]]"
proof -
  have run: "clean_data
     [[(''SaleID'', ''10''), (''ProductID'', ''7''), (''RetailerID'', ''3'')],
      [(''SaleID'', []), (''ProductID'', ''7''), (''RetailerID'', ''3'')]] default_id_fields
   = Inr [[(''SaleID'', VStr ''10''), (''ProductID'', VStr ''7''), (''RetailerID'', VStr ''3'')]]"
    by (simp add: eval_defs)
  from validate_after_clean [OF run] run show ?thesis by simp
qed

subsection \<open>Helper lemmas on the transformer\<close>

lemma int_body_decimal: "s \<noteq> [] \<Longrightarrow> list_all isdecimal_char s \<Longrightarrow> int_body s"
proof (induction s rule: int_body.induct)
  case 1
  then show ?case by simp
next
  case (2 c)
  then show ?case by simp
next
  case (3 c d r)
  then have "d \<noteq> CHR ''_''" by (auto simp: isdecimal_char_def)
  with 3 show ?case by simp
qed

lemma decimal_not_space: "isdecimal_char c \<Longrightarrow> \<not> int_space c"
  by (auto simp: isdecimal_char_def int_space_def Let_def)

lemma decimal_not_sign:
  "isdecimal_char c \<Longrightarrow> c \<noteq> CHR ''-'' \<and> c \<noteq> CHR ''+'' \<and> c \<noteq> CHR ''_''"
  by (auto simp: isdecimal_char_def)

lemma int_str_decimal:
  assumes "s \<noteq> []" "list_all isdecimal_char s" "length s \<le> max_str_digits"
  shows "int_str s = Inr (int (digits_value s))"
proof -
  from assms have "isdecimal_char (hd s)" "isdecimal_char (last s)"
    by (auto simp: list_all_iff)
  with assms(1) have strip: "strip_with int_space s = s"
    by (intro strip_with_id) (auto dest: decimal_not_space)
  from assms obtain c r where s: "s = c # r" by (cases s) auto
  with assms(2) have c: "c \<noteq> CHR ''-''" "c \<noteq> CHR ''+''"
    by (auto dest: decimal_not_sign)
  from assms(2) have "filter (\<lambda>c. c \<noteq> CHR ''_'') s = s"
    by (auto simp: list_all_iff filter_id_conv dest: decimal_not_sign)
  moreover from assms(1,2) have "int_body s" by (rule int_body_decimal)
  ultimately have "int_of_body s = Inr (int (digits_value s))"
    using assms(3) by (simp add: int_of_body_def)
  with c show ?thesis
    unfolding int_str_def strip by (simp add: s)
qed


lemma nonzero_digit_decimal: "nonzero_digit c \<Longrightarrow> isdecimal_char c"
  by (simp add: nonzero_digit_def isdecimal_char_def Let_def)

lemma year_token_int: "year_token y \<Longrightarrow> \<exists>n. int_str y = Inr n"
proof -
  assume "year_token y"
  then have "y \<noteq> []" "list_all isdecimal_char y" "length y \<le> max_str_digits"
    by (auto simp: year_token_def max_str_digits_def)
  then show ?thesis by (simp add: int_str_decimal)
qed

lemma month_token_int: "month_token m \<Longrightarrow> \<exists>n. int_str m = Inr n"
proof (induction m rule: month_token.induct)
  case (1 a)
  then have "list_all isdecimal_char [a]" by (simp add: nonzero_digit_decimal)
  then show ?case by (simp add: int_str_decimal max_str_digits_def)
next
  case (2 a b)
  then have "list_all isdecimal_char [a, b]"
    by (auto simp: nonzero_digit_decimal) (simp_all add: isdecimal_char_def)
  then show ?case by (simp add: int_str_decimal max_str_digits_def)
qed simp_all

lemma int_str_space_digit:
  assumes "nonzero_digit b"
  shows "int_str [CHR '' '', b] = Inr (int (digits_value [b]))"
proof -
  from assms have b: "isdecimal_char b" by (rule nonzero_digit_decimal)
  then have "\<not> int_space b" by (rule decimal_not_space)
  moreover have "int_space CHR '' ''" by (simp add: int_space_def)
  ultimately have "strip_with int_space [CHR '' '', b] = [b]"
    by (simp add: strip_with_def)
  with b decimal_not_sign [OF b] show ?thesis
    by (simp add: int_str_def int_of_body_def max_str_digits_def)
qed

lemma day_token_int: "day_token d \<Longrightarrow> \<exists>n. int_str d = Inr n"
proof (induction d rule: day_token.induct)
  case (1 a)
  then have "list_all isdecimal_char [a]" by (simp add: nonzero_digit_decimal)
  then show ?case by (simp add: int_str_decimal max_str_digits_def)
next
  case (2 a b)
  show ?case
  proof (cases "a = CHR '' ''")
    case True
    with 2 have "nonzero_digit b" by simp
    with True show ?thesis by (simp add: int_str_space_digit)
  next
    case False
    with 2 have "list_all isdecimal_char [a, b]"
      by (auto simp: nonzero_digit_decimal) (simp_all add: isdecimal_char_def)
    then show ?thesis by (simp add: int_str_decimal max_str_digits_def)
  qed
qed simp_all

lemma strptime_tokens:
  assumes "strptime s = Inr ymd"
  shows "\<exists>y m d. split CHR ''-'' s = [y, m, d] \<and> year_token y \<and> month_token m \<and> day_token d"
proof -
  obtain ps where ps: "split CHR ''-'' s = ps" by simp
  with assms show ?thesis
    unfolding strptime_def ps
    by (auto split: list.splits if_splits)
qed

lemma date_attributes_ok:
  assumes "strptime s = Inr ymd"
  shows "\<exists>d. date_attributes s = Inr d \<and> date_dim_record.Date d = VStr s"
proof -
  from strptime_tokens [OF assms] obtain y m d
    where parts: "split CHR ''-'' s = [y, m, d]"
      and tok: "year_token y" "month_token m" "day_token d" by blast
  from tok obtain ny nm nd
    where "int_str y = Inr ny" "int_str m = Inr nm" "int_str d = Inr nd"
    using year_token_int month_token_int day_token_int by blast
  with parts assms show ?thesis
    by (cases ymd) (simp add: date_attributes_def index_def)
qed

lemma date_attributes_Inr:
  assumes "date_attributes s = Inr d"
  shows "(\<exists>ymd. strptime s = Inr ymd) \<and> date_dim_record.Date d = VStr s"
  using assms unfolding date_attributes_def Let_def
  by (auto simp: bind_eq_Inr)

lemma getitem_Some: "map_of r k = Some v \<Longrightarrow> getitem r k = Inr v"
  by (simp add: getitem_def)

lemma getitem_eq_Inr: "getitem r k = Inr v \<longleftrightarrow> map_of r k = Some v"
  by (simp add: getitem_def split: option.splits)

lemma py_eq_VStr: "py_eq v (VStr s) \<Longrightarrow> v = VStr s"
  by (cases v) simp_all

lemma conforms_date_VStr:
  "conforms_date v \<longleftrightarrow> (\<exists>s ymd. v = VStr s \<and> strptime s = Inr ymd)"
  by (cases v) (auto simp: conforms_date_def split: sum.splits)

lemma date_step_conforms:
  assumes "date_step r date_dim = Inr date_dim'" "dates_conform date_dim"
  shows "dates_conform date_dim' \<and> (\<forall>v. map_of r ''Date'' = Some v \<longrightarrow> conforms_date v)"
proof -
  from assms(1) obtain v where v: "map_of r ''Date'' = Some v"
    and rest: "(if \<not> py_in v (map date_dim_record.Date date_dim)
       then (case v of
            VStr s \<Rightarrow>
              bind (date_attributes s) (\<lambda>d.
                if all_fields d then Inr (date_dim @ [d]) else Inr date_dim)
          | _ \<Rightarrow> Inl AttributeError)
       else Inr date_dim) = Inr date_dim'"
    unfolding date_step_def by (auto simp: bind_eq_Inr getitem_eq_Inr)
  show ?thesis
  proof (cases "py_in v (map date_dim_record.Date date_dim)")
    case True
    then obtain d where d: "d \<in> set date_dim" "py_eq v (date_dim_record.Date d)"
      by (auto simp: py_in_def list_ex_iff)
    from d(1) assms(2) have "conforms_date (date_dim_record.Date d)"
      by (simp add: dates_conform_def list_all_iff)
    then obtain s ymd where s: "date_dim_record.Date d = VStr s" "strptime s = Inr ymd"
      unfolding conforms_date_VStr by blast
    from d(2) have "v = VStr s" unfolding s(1) by (rule py_eq_VStr)
    with s(2) have "conforms_date v"
      unfolding conforms_date_VStr by blast
    moreover from True rest have "date_dim' = date_dim" by simp
    ultimately show ?thesis using v assms(2) by simp
  next
    case False
    with rest obtain s d where s: "v = VStr s" and d: "date_attributes s = Inr d"
      and out: "date_dim' = date_dim @ [d] \<or> date_dim' = date_dim"
      by (cases v) (auto simp: bind_eq_Inr split: if_splits)
    from date_attributes_Inr [OF d] s have "conforms_date v" "conforms_date (date_dim_record.Date d)"
      by (auto simp: conforms_date_VStr)
    with out assms(2) v show ?thesis
      by (auto simp: dates_conform_def)
  qed
qed

lemma transform_row_conforms:
  assumes "transform_row r (pd, rd, dd, sf) = Inr (pd', rd', dd', sf')" "dates_conform dd"
  shows "dates_conform dd' \<and> (\<forall>v. map_of r ''Date'' = Some v \<longrightarrow> conforms_date v)"
proof -
  from assms(1) have "date_step r dd = Inr dd'"
    by (auto simp: transform_row_def bind_eq_Inr)
  from date_step_conforms [OF this assms(2)] show ?thesis .
qed

lemma transform_loop_conforms:
  assumes "transform_loop rows (pd, rd, dd, sf) = Inr t" "dates_conform dd"
    and "r \<in> set rows" "map_of r ''Date'' = Some v"
  shows "conforms_date v"
  using assms
proof (induction rows arbitrary: pd rd dd sf)
  case Nil
  then show ?case by simp
next
  case (Cons r0 rows)
  from Cons.prems(1) obtain t' where t': "transform_row r0 (pd, rd, dd, sf) = Inr t'"
    and loop: "transform_loop rows t' = Inr t"
    by (auto simp: bind_eq_Inr)
  obtain pd' rd' dd' sf' where split: "t' = (pd', rd', dd', sf')" by (cases t') auto
  from transform_row_conforms [OF t' [unfolded split] Cons.prems(2)]
  have inv: "dates_conform dd'" and here: "\<forall>v. map_of r0 ''Date'' = Some v \<longrightarrow> conforms_date v"
    by auto
  show ?case
  proof (cases "r = r0")
    case True
    with here Cons.prems(4) show ?thesis by simp
  next
    case False
    with Cons.prems(3) have "r \<in> set rows" by simp
    from Cons.IH [OF loop [unfolded split] inv this Cons.prems(4)] show ?thesis .
  qed
qed

lemma product_step_ok:
  assumes "has_columns r" "int_valued r ''ProductID''"
  shows "\<exists>pd'. product_step r pd = Inr pd'"
proof -
  from assms(1) obtain a b c d where "map_of r ''ProductID'' = Some a"
    "map_of r ''ProductName'' = Some b" "map_of r ''Brand'' = Some c"
    "map_of r ''Category'' = Some d"
    by (auto simp: has_columns_def)
  moreover from this assms(2) obtain n where "py_int a = Inr n"
    by (auto simp: int_valued_def split: sum.splits)
  ultimately show ?thesis
    by (simp add: product_step_def getitem_Some)
qed

lemma retailer_step_ok:
  assumes "has_columns r" "int_valued r ''RetailerID''"
  shows "\<exists>rd'. retailer_step r rd = Inr rd'"
proof -
  from assms(1) obtain a b c d where "map_of r ''RetailerID'' = Some a"
    "map_of r ''RetailerName'' = Some b" "map_of r ''Channel'' = Some c"
    "map_of r ''Location'' = Some d"
    by (auto simp: has_columns_def)
  moreover from this assms(2) obtain n where "py_int a = Inr n"
    by (auto simp: int_valued_def split: sum.splits)
  ultimately show ?thesis
    by (simp add: retailer_step_def getitem_Some)
qed

lemma date_step_ok:
  assumes "map_of r ''Date'' = Some v" "conforms_date v"
  shows "\<exists>dd'. date_step r dd = Inr dd'"
proof -
  from assms(2) obtain s ymd where s: "v = VStr s" "strptime s = Inr ymd"
    by (auto simp: conforms_date_VStr)
  from date_attributes_ok [OF s(2)] obtain d where "date_attributes s = Inr d" by blast
  with assms(1) s(1) show ?thesis
    by (simp add: date_step_def getitem_Some)
qed

lemma sales_step_ok:
  assumes "has_columns r" "int_valued r ''SaleID''" "int_valued r ''ProductID''"
    "int_valued r ''RetailerID''" "int_valued r ''Quantity''"
  shows "\<exists>sf'. sales_step r sf = Inr sf'"
proof -
  from assms(1) obtain a b c d e f where m: "map_of r ''SaleID'' = Some a"
    "map_of r ''ProductID'' = Some b" "map_of r ''RetailerID'' = Some c"
    "map_of r ''Date'' = Some d" "map_of r ''Quantity'' = Some e"
    "map_of r ''Price'' = Some f"
    by (auto simp: has_columns_def)
  moreover from m assms(2-5) obtain na nb nc ne where "py_int a = Inr na" "py_int b = Inr nb"
    "py_int c = Inr nc" "py_int e = Inr ne"
    by (auto simp: int_valued_def split: sum.splits)
  ultimately show ?thesis
    by (simp add: sales_step_def getitem_Some)
qed

lemma transform_row_ok:
  assumes "transformable r"
  shows "\<exists>t'. transform_row r t = Inr t'"
proof -
  obtain pd rd dd sf where t: "t = (pd, rd, dd, sf)"
    using prod_cases4 by blast
  from assms obtain v where v: "map_of r ''Date'' = Some v" "conforms_date v"
    by (auto simp: transformable_def split: option.splits)
  from assms obtain pd' where "product_step r pd = Inr pd'"
    using product_step_ok [of r pd] by (auto simp: transformable_def)
  moreover from assms obtain rd' where "retailer_step r rd = Inr rd'"
    using retailer_step_ok [of r rd] by (auto simp: transformable_def)
  moreover from v obtain dd' where "date_step r dd = Inr dd'"
    using date_step_ok [of r v dd] by auto
  moreover from assms obtain sf' where "sales_step r sf = Inr sf'"
    using sales_step_ok [of r sf] by (auto simp: transformable_def)
  ultimately show ?thesis by (simp add: transform_row_def t)
qed

lemma transform_loop_ok:
  "list_all transformable rows \<Longrightarrow> \<exists>t'. transform_loop rows t = Inr t'"
proof (induction rows arbitrary: t)
  case Nil
  show ?case by (rule exI [of _ t]) simp
next
  case (Cons r rows)
  from Cons.prems transform_row_ok [of r t] obtain t1 where "transform_row r t = Inr t1"
    by auto
  moreover from Cons.prems have "list_all transformable rows" by simp
  from Cons.IH [OF this, of t1] obtain t2 where "transform_loop rows t1 = Inr t2" by blast
  ultimately show ?case by (intro exI [of _ t2]) simp
qed

subsection \<open>The transformer\<close>

text \<open>
  Claim C1, at a file of two rows that share \<^verbatim>\<open>ProductID\<close> 1 and \<^verbatim>\<open>RetailerID\<close> 3
  and differ in \<^verbatim>\<open>ProductName\<close> and \<^verbatim>\<open>RetailerName\<close>, run through the cleaner, the
  validator and the transformer. The cleaner leaves the identifiers as strings; the
  transformer stores \<^verbatim>\<open>int(row['ProductID'])\<close> and tests \<^verbatim>\<open>row['ProductID'] not in\<close>
  the stored integers, and a string is never equal to an integer. Both rows are
  emitted: the product dimension has two records with \<^verbatim>\<open>ProductID\<close> 1, and the
  retailer dimension two with \<^verbatim>\<open>RetailerID\<close> 3.
\<close>

theorem product_dimension_repeats_id:
  "bind (clean_data
     [[(''SaleID'', ''10''), (''ProductID'', ''1''), (''RetailerID'', ''3''),
       (''ProductName'', ''Pen''), (''Brand'', ''Acme''), (''Category'', []),
       (''RetailerName'', ''Shop''), (''Channel'', ''Online''), (''Location'', []),
       (''Date'', ''2024-03-15''), (''Quantity'', ''2''), (''Price'', ''1.50'')],
      [(''SaleID'', ''11''), (''ProductID'', ''1''), (''RetailerID'', ''3''),
       (''ProductName'', ''Pencil''), (''Brand'', ''Acme''), (''Category'', []),
       (''RetailerName'', ''Store''), (''Channel'', ''Online''), (''Location'', []),
       (''Date'', ''2024-03-15''), (''Quantity'', ''1''), (''Price'', ''0.50'')]]
     default_id_fields) (\<lambda>c. transform_data (validate_data c))
   = Inr
     ([\<lparr>product_dim_record.ProductID = 1, product_dim_record.Name = VStr ''Pen'',
         Brand = VStr ''Acme'', Category = VNone\<rparr>,
       \<lparr>product_dim_record.ProductID = 1, product_dim_record.Name = VStr ''Pencil'',
         Brand = VStr ''Acme'', Category = VNone\<rparr>],
      [\<lparr>retailer_dim_record.RetailerID = 3, retailer_dim_record.Name = VStr ''Shop'',
         Channel = VStr ''Online'', Location = VNone\<rparr>,
       \<lparr>retailer_dim_record.RetailerID = 3, retailer_dim_record.Name = VStr ''Store'',
         Channel = VStr ''Online'', Location = VNone\<rparr>],
      [\<lparr>date_dim_record.Date = VStr ''2024-03-15'', Day = 15, Month = 3, Year = 2024,
         Quarter = 1, DayOfWeek = ''Friday'', WeekOfYear = 11\<rparr>],
      [\<lparr>SaleID = 10, sales_fact_record.ProductID = 1, sales_fact_record.RetailerID = 3,
         sales_fact_record.Date = VStr ''2024-03-15'', Quantity = 2,
         Price = VFloat (Finite (3 / 2))\<rparr>,
       \<lparr>SaleID = 11, sales_fact_record.ProductID = 1, sales_fact_record.RetailerID = 3,
         sales_fact_record.Date = VStr ''2024-03-15'', Quantity = 1,
         Price = VFloat (Finite (1 / 2))\<rparr>])"
proof -
  let ?c = "[[(''SaleID'', VStr ''10''), (''ProductID'', VStr ''1''), (''RetailerID'', VStr ''3''),
       (''ProductName'', VStr ''Pen''), (''Brand'', VStr ''Acme''), (''Category'', VStr []),
       (''RetailerName'', VStr ''Shop''), (''Channel'', VStr ''Online''), (''Location'', VNone),
       (''Date'', VStr ''2024-03-15''), (''Quantity'', VInt 2), (''Price'', VFloat (Finite (3 / 2)))],
      [(''SaleID'', VStr ''11''), (''ProductID'', VStr ''1''), (''RetailerID'', VStr ''3''),
       (''ProductName'', VStr ''Pencil''), (''Brand'', VStr ''Acme''), (''Category'', VStr []),
       (''RetailerName'', VStr ''Store''), (''Channel'', VStr ''Online''), (''Location'', VNone),
       (''Date'', VStr ''2024-03-15''), (''Quantity'', VInt 1), (''Price'', VFloat (Finite (1 / 2)))]]"
  have cleaned: "clean_data
     [[(''SaleID'', ''10''), (''ProductID'', ''1''), (''RetailerID'', ''3''),
       (''ProductName'', ''Pen''), (''Brand'', ''Acme''), (''Category'', []),
       (''RetailerName'', ''Shop''), (''Channel'', ''Online''), (''Location'', []),
       (''Date'', ''2024-03-15''), (''Quantity'', ''2''), (''Price'', ''1.50'')],
      [(''SaleID'', ''11''), (''ProductID'', ''1''), (''RetailerID'', ''3''),
       (''ProductName'', ''Pencil''), (''Brand'', ''Acme''), (''Category'', []),
       (''RetailerName'', ''Store''), (''Channel'', ''Online''), (''Location'', []),
       (''Date'', ''2024-03-15''), (''Quantity'', ''1''), (''Price'', ''0.50'')]]
     default_id_fields = Inr ?c"
    by (simp add: eval_defs)
  have validated: "validate_data ?c = ?c"
    by (simp add: validate_data_def)
  show ?thesis
    unfolding cleaned bind_Inr validated by code_simp
qed

text \<open>
  Claim C2, at a file of two rows that share \<^verbatim>\<open>SaleID\<close> 10 and differ in \<^verbatim>\<open>Date\<close>
  and \<^verbatim>\<open>Quantity\<close>. The membership test compares the string \<^verbatim>\<open>row['SaleID']\<close> with
  the stored integers, so the second row is emitted too: the sales facts hold two
  records with \<^verbatim>\<open>SaleID\<close> 10.
\<close>

theorem sales_fact_repeats_id:
  "bind (clean_data
     [[(''SaleID'', ''10''), (''ProductID'', ''1''), (''RetailerID'', ''3''),
       (''ProductName'', ''Pen''), (''Brand'', ''Acme''), (''Category'', []),
       (''RetailerName'', ''Shop''), (''Channel'', ''Online''), (''Location'', []),
       (''Date'', ''2024-03-15''), (''Quantity'', ''2''), (''Price'', ''1.50'')],
      [(''SaleID'', ''10''), (''ProductID'', ''1''), (''RetailerID'', ''3''),
       (''ProductName'', ''Pen''), (''Brand'', ''Acme''), (''Category'', []),
       (''RetailerName'', ''Shop''), (''Channel'', ''Online''), (''Location'', []),
       (''Date'', ''2024-03-16''), (''Quantity'', ''7''), (''Price'', ''1.50'')]]
     default_id_fields) (\<lambda>c. transform_data (validate_data c))
   = Inr
     ([\<lparr>product_dim_record.ProductID = 1, product_dim_record.Name = VStr ''Pen'',
         Brand = VStr ''Acme'', Category = VNone\<rparr>,
       \<lparr>product_dim_record.ProductID = 1, product_dim_record.Name = VStr ''Pen'',
         Brand = VStr ''Acme'', Category = VNone\<rparr>],
      [\<lparr>retailer_dim_record.RetailerID = 3, retailer_dim_record.Name = VStr ''Shop'',
         Channel = VStr ''Online'', Location = VNone\<rparr>,
       \<lparr>retailer_dim_record.RetailerID = 3, retailer_dim_record.Name = VStr ''Shop'',
         Channel = VStr ''Online'', Location = VNone\<rparr>],
      [\<lparr>date_dim_record.Date = VStr ''2024-03-15'', Day = 15, Month = 3, Year = 2024,
         Quarter = 1, DayOfWeek = ''Friday'', WeekOfYear = 11\<rparr>,
       \<lparr>date_dim_record.Date = VStr ''2024-03-16'', Day = 16, Month = 3, Year = 2024,
         Quarter = 1, DayOfWeek = ''Saturday'', WeekOfYear = 11\<rparr>],
      [\<lparr>SaleID = 10, sales_fact_record.ProductID = 1, sales_fact_record.RetailerID = 3,
         sales_fact_record.Date = VStr ''2024-03-15'', Quantity = 2,
         Price = VFloat (Finite (3 / 2))\<rparr>,
       \<lparr>SaleID = 10, sales_fact_record.ProductID = 1, sales_fact_record.RetailerID = 3,
         sales_fact_record.Date = VStr ''2024-03-16'', Quantity = 7,
         Price = VFloat (Finite (3 / 2))\<rparr>])"
proof -
  let ?c = "[[(''SaleID'', VStr ''10''), (''ProductID'', VStr ''1''), (''RetailerID'', VStr ''3''),
       (''ProductName'', VStr ''Pen''), (''Brand'', VStr ''Acme''), (''Category'', VStr []),
       (''RetailerName'', VStr ''Shop''), (''Channel'', VStr ''Online''), (''Location'', VNone),
       (''Date'', VStr ''2024-03-15''), (''Quantity'', VInt 2), (''Price'', VFloat (Finite (3 / 2)))],
      [(''SaleID'', VStr ''10''), (''ProductID'', VStr ''1''), (''RetailerID'', VStr ''3''),
       (''ProductName'', VStr ''Pen''), (''Brand'', VStr ''Acme''), (''Category'', VStr []),
       (''RetailerName'', VStr ''Shop''), (''Channel'', VStr ''Online''), (''Location'', VNone),
       (''Date'', VStr ''2024-03-16''), (''Quantity'', VInt 7), (''Price'', VFloat (Finite (3 / 2)))]]"
  have cleaned: "clean_data
     [[(''SaleID'', ''10''), (''ProductID'', ''1''), (''RetailerID'', ''3''),
       (''ProductName'', ''Pen''), (''Brand'', ''Acme''), (''Category'', []),
       (''RetailerName'', ''Shop''), (''Channel'', ''Online''), (''Location'', []),
       (''Date'', ''2024-03-15''), (''Quantity'', ''2''), (''Price'', ''1.50'')],
      [(''SaleID'', ''10''), (''ProductID'', ''1''), (''RetailerID'', ''3''),
       (''ProductName'', ''Pen''), (''Brand'', ''Acme''), (''Category'', []),
       (''RetailerName'', ''Shop''), (''Channel'', ''Online''), (''Location'', []),
       (''Date'', ''2024-03-16''), (''Quantity'', ''7''), (''Price'', ''1.50'')]]
     default_id_fields = Inr ?c"
    by (simp add: eval_defs)
  have validated: "validate_data ?c = ?c"
    by (simp add: validate_data_def)
  show ?thesis
    unfolding cleaned bind_Inr validated by code_simp
qed

text \<open>
  Claim C8, as the code has it. A row whose \<^verbatim>\<open>Date\<close> value does not conform ends the
  whole run with an exception, wherever the row stands and whatever came before it.
  Conversely the run returns the four tables when every row has the twelve columns the
  transformer reads, values of \<^verbatim>\<open>ProductID\<close>, \<^verbatim>\<open>RetailerID\<close>, \<^verbatim>\<open>SaleID\<close> and
  \<^verbatim>\<open>Quantity\<close> that \<^verbatim>\<open>int\<close> accepts, and a \<^verbatim>\<open>Date\<close> that conforms.
\<close>

theorem nonconforming_date_aborts:
  "(r \<in> set rows \<and> map_of r ''Date'' = Some v \<and> \<not> conforms_date v
      \<longrightarrow> (\<exists>e. transform_data rows = Inl e))
   \<and> (list_all transformable rows \<longrightarrow> (\<exists>t. transform_data rows = Inr t))"
proof (intro conjI impI)
  assume bad: "r \<in> set rows \<and> map_of r ''Date'' = Some v \<and> \<not> conforms_date v"
  show "\<exists>e. transform_data rows = Inl e"
  proof (cases "transform_data rows")
    case (Inl e)
    then show ?thesis by blast
  next
    case (Inr t)
    then have "transform_loop rows ([], [], [], []) = Inr t"
      by (simp add: transform_data_def)
    from transform_loop_conforms [OF this, of r v] bad show ?thesis
      by (simp add: dates_conform_def)
  qed
next
  assume "list_all transformable rows"
  from transform_loop_ok [OF this] show "\<exists>t. transform_data rows = Inr t"
    by (simp add: transform_data_def)
qed

theorem nonconforming_date_aborts_witness:
  "\<not> conforms_date (VStr ''15-03-2024'')
   \<and> (\<exists>e. transform_data
          [[(''SaleID'', VStr ''10''), (''ProductID'', VStr ''1''), (''RetailerID'', VStr ''3''),
            (''ProductName'', VStr ''Pen''), (''Brand'', VStr ''Acme''), (''Category'', VStr []),
            (''RetailerName'', VStr ''Shop''), (''Channel'', VStr ''Online''),
            (''Location'', VNone), (''Date'', VStr ''2024-03-15''), (''Quantity'', VInt 2),
            (''Price'', VFloat (Finite 5))],
           [(''SaleID'', VStr ''11''), (''ProductID'', VStr ''1''), (''RetailerID'', VStr ''3''),
            (''ProductName'', VStr ''Pen''), (''Brand'', VStr ''Acme''), (''Category'', VStr []),
            (''RetailerName'', VStr ''Shop''), (''Channel'', VStr ''Online''),
            (''Location'', VNone), (''Date'', VStr ''15-03-2024''), (''Quantity'', VInt 1),
            (''Price'', VFloat (Finite 5))]] = Inl e)
   \<and> transform_data
          [[(''SaleID'', VStr ''10''), (''ProductID'', VStr ''1''), (''RetailerID'', VStr ''3''),
            (''ProductName'', VStr ''Pen''), (''Brand'', VStr ''Acme''), (''Category'', VStr []),
            (''RetailerName'', VStr ''Shop''), (''Channel'', VStr ''Online''),
            (''Location'', VNone), (''Date'', VStr ''2024-03-15''), (''Quantity'', VInt 2),
            (''Price'', VFloat (Finite 5))],
           [(''SaleID'', VStr ''11''), (''ProductID'', VStr ''1''), (''RetailerID'', VStr ''3''),
            (''ProductName'', VStr ''Pen''), (''Brand'', VStr ''Acme''), (''Category'', VStr []),
            (''RetailerName'', VStr ''Shop''), (''Channel'', VStr ''Online''),
            (''Location'', VNone), (''Date'', VStr ''15-03-2024''), (''Quantity'', VInt 1),
            (''Price'', VFloat (Finite 5))]] = Inl ValueError
   \<and> list_all transformable
        [[(''SaleID'', VStr ''10''), (''ProductID'', VStr ''1''), (''RetailerID'', VStr ''3''),
          (''ProductName'', VStr ''Pen''), (''Brand'', VStr ''Acme''), (''Category'', VStr []),
          (''RetailerName'', VStr ''Shop''), (''Channel'', VStr ''Online''),
          (''Location'', VNone), (''Date'', VStr ''2024-03-15''), (''Quantity'', VInt 2),
          (''Price'', VFloat (Finite 5))]]
   \<and> (\<exists>t. transform_data
          [[(''SaleID'', VStr ''10''), (''ProductID'', VStr ''1''), (''RetailerID'', VStr ''3''),
            (''ProductName'', VStr ''Pen''), (''Brand'', VStr ''Acme''), (''Category'', VStr []),
            (''RetailerName'', VStr ''Shop''), (''Channel'', VStr ''Online''),
            (''Location'', VNone), (''Date'', VStr ''2024-03-15''), (''Quantity'', VInt 2),
            (''Price'', VFloat (Finite 5))]] = Inr t)"
proof -
  let ?good = "[(''SaleID'', VStr ''10''), (''ProductID'', VStr ''1''), (''RetailerID'', VStr ''3''),
            (''ProductName'', VStr ''Pen''), (''Brand'', VStr ''Acme''), (''Category'', VStr []),
            (''RetailerName'', VStr ''Shop''), (''Channel'', VStr ''Online''),
            (''Location'', VNone), (''Date'', VStr ''2024-03-15''), (''Quantity'', VInt 2),
            (''Price'', VFloat (Finite 5))]"
  let ?bad = "[(''SaleID'', VStr ''11''), (''ProductID'', VStr ''1''), (''RetailerID'', VStr ''3''),
            (''ProductName'', VStr ''Pen''), (''Brand'', VStr ''Acme''), (''Category'', VStr []),
            (''RetailerName'', VStr ''Shop''), (''Channel'', VStr ''Online''),
            (''Location'', VNone), (''Date'', VStr ''15-03-2024''), (''Quantity'', VInt 1),
            (''Price'', VFloat (Finite 5))]"
  have bad: "\<not> conforms_date (VStr ''15-03-2024'')" by code_simp
  have good: "list_all transformable [?good]" by code_simp
  have err: "transform_data [?good, ?bad] = Inl ValueError" by code_simp
  have "?bad \<in> set [?good, ?bad] \<and> map_of ?bad ''Date'' = Some (VStr ''15-03-2024'')
        \<and> \<not> conforms_date (VStr ''15-03-2024'')"
    using bad by simp
  with nonconforming_date_aborts [of ?bad "[?good, ?bad]" "VStr ''15-03-2024''"]
  have 1: "\<exists>e. transform_data [?good, ?bad] = Inl e" by blast
  from nonconforming_date_aborts [of ?bad "[?good]" "VStr ''15-03-2024''"] good
  have 2: "\<exists>t. transform_data [?good] = Inr t" by blast
  from bad 1 err good 2 show ?thesis by blast
qed

text \<open>
  Claim C8 as stated fails in its converse. A row that passes the validator and has a
  conforming \<^verbatim>\<open>Date\<close> but no \<^verbatim>\<open>ProductName\<close> column ends the run with \<^verbatim>\<open>KeyError\<close>;
  a row with all columns, a conforming \<^verbatim>\<open>Date\<close> and the \<^verbatim>\<open>ProductID\<close> U+00B2 ends it
  with the \<^verbatim>\<open>ValueError\<close> of \<^verbatim>\<open>int\<close>.
\<close>

theorem conforming_dates_still_abort:
  "validate_data
     [[(''SaleID'', VStr ''10''), (''ProductID'', VStr ''1''), (''RetailerID'', VStr ''3''),
       (''Date'', VStr ''2024-03-15'')]]
   = [[(''SaleID'', VStr ''10''), (''ProductID'', VStr ''1''), (''RetailerID'', VStr ''3''),
       (''Date'', VStr ''2024-03-15'')]]
   \<and> conforms_date (VStr ''2024-03-15'')
   \<and> transform_data
       [[(''SaleID'', VStr ''10''), (''ProductID'', VStr ''1''), (''RetailerID'', VStr ''3''),
         (''Date'', VStr ''2024-03-15'')]] = Inl (KeyError ''ProductName'')
   \<and> transform_data
       [[(''SaleID'', VStr ''10''), (''ProductID'', VStr [CHR 0xB2]), (''RetailerID'', VStr ''3''),
         (''ProductName'', VStr ''Pen''), (''Brand'', VStr ''Acme''), (''Category'', VStr []),
         (''RetailerName'', VStr ''Shop''), (''Channel'', VStr ''Online''),
         (''Location'', VNone), (''Date'', VStr ''2024-03-15''), (''Quantity'', VInt 2),
         (''Price'', VFloat (Finite 5))]] = Inl ValueError"
  by code_simp

end
